theory Spec2Isabelle
  imports Main "HOL-Library.Word" "HOL-Library.AList"
begin

section \<open>Errors\<close>

text \<open>
  The error values that occur in \<^verbatim>\<open>deebee.go\<close>.  \<open>errorString\<close> is what
  \<^verbatim>\<open>errors.New\<close> builds, \<open>wrapError\<close> what \<^verbatim>\<open>fmt.Errorf\<close> builds
  with the \<^verbatim>\<open>%w\<close> verb (the first argument is the text in front of the wrapped
  error), \<open>clientError\<close> is the value of \<^verbatim>\<open>newClientError\<close> and
  \<open>dataNotFoundError\<close> is \<^verbatim>\<open>&dataNotFoundError{}\<close>, a struct literal without
  fields.  \<open>foreignError\<close> stands for any error that comes from outside the package:
  from a \<^verbatim>\<open>Dir\<close> implementation or from an option.  Go compares errors by
  identity; the model compares them as values.
\<close>

datatype error =
    errorString string
  | clientError string
  | dataNotFoundError
  | wrapError string error
  | foreignError string

text \<open>
  Modelled from the spec: \<^verbatim>\<open>newClientError\<close>, \<^verbatim>\<open>IsClientError\<close> and
  \<^verbatim>\<open>IsDataNotFound\<close> are not among the source files.  The spec describes the
  classification predicates as matching the tag of the error.
\<close>

definition newClientError :: "string \<Rightarrow> error" where
  "newClientError msg = clientError msg"

fun IsClientError :: "error \<Rightarrow> bool" where
  "IsClientError (clientError msg) = True"
| "IsClientError err = False"

fun IsDataNotFound :: "error \<Rightarrow> bool" where
  "IsDataNotFound dataNotFoundError = True"
| "IsDataNotFound err = False"


section \<open>Version numbers as file names\<close>

text \<open>\<^verbatim>\<open>fmt.Sprintf("%d", v)\<close>: the decimal form of an integer.\<close>

definition digit_char :: "nat \<Rightarrow> char" where
  "digit_char d = ''0123456789'' ! d"

fun decimal :: "nat \<Rightarrow> string" where
  "decimal n =
     (if n < 10 then [digit_char n] else decimal (n div 10) @ [digit_char (n mod 10)])"

declare decimal.simps [simp del]

definition Sprintf_d :: "int \<Rightarrow> string" where
  "Sprintf_d v = (if v < 0 then CHR ''-'' # decimal (nat (- v)) else decimal (nat v))"

text \<open>
  Modelled from the spec: \<^verbatim>\<open>toFilenames\<close> and \<^verbatim>\<open>youngestFilename\<close> are not
  among the source files (only the field \<^verbatim>\<open>name\<close> of their result is used in
  \<^verbatim>\<open>Reader\<close>).  The spec: a version is a non-negative integer in decimal form;
  each listed file name is parsed as a version integer, entries that do not parse are
  discarded, and the entry with the numerically greatest version is selected.
\<close>

record filename =
  name :: string
  ver :: int

definition digit_val :: "char \<Rightarrow> nat option" where
  "digit_val c =
     (let n = (of_char c :: nat) in if 48 \<le> n \<and> n \<le> 57 then Some (n - 48) else None)"

fun parse_digits :: "nat \<Rightarrow> string \<Rightarrow> nat option" where
  "parse_digits acc [] = Some acc"
| "parse_digits acc (c # cs) =
     (case digit_val c of None \<Rightarrow> None | Some d \<Rightarrow> parse_digits (10 * acc + d) cs)"

definition parseVersion :: "string \<Rightarrow> int option" where
  "parseVersion f = (if f = [] then None else map_option int (parse_digits 0 f))"

fun toFilenames :: "string list \<Rightarrow> filename list" where
  "toFilenames [] = []"
| "toFilenames (f # files) =
     (case parseVersion f of
        None \<Rightarrow> toFilenames files
      | Some v \<Rightarrow> \<lparr>name = f, ver = v\<rparr> # toFilenames files)"

fun youngestFilename :: "filename list \<Rightarrow> filename \<times> bool" where
  "youngestFilename [] = (\<lparr>name = [], ver = 0\<rparr>, False)"
| "youngestFilename (f # filenames) =
     (case youngestFilename filenames of
        (g, exists) \<Rightarrow> if exists \<and> ver f < ver g then (g, True) else (f, True))"

section \<open>Keys\<close>

text \<open>
  Modelled from the spec: \<^verbatim>\<open>validateKey\<close> is not among the source files.  The
  spec: it rejects the empty string, strings with leading or trailing whitespace, the
  strings \<^verbatim>\<open>.\<close> and \<^verbatim>\<open>..\<close>, and any string with a forward slash or a
  backslash; every other string is accepted.  Whitespace is taken to be the ASCII
  whitespace characters (space, tab, line feed, vertical tab, form feed, carriage
  return).  The result is \<open>None\<close> for Go's \<^verbatim>\<open>nil\<close> error.
\<close>

definition isSpace :: "char \<Rightarrow> bool" where
  "isSpace c = (c \<in> set [CHR '' '', CHR 0x09, CHR 0x0A, CHR 0x0B, CHR 0x0C, CHR 0x0D])"

definition validateKey :: "string \<Rightarrow> error option" where
  "validateKey key =
     (if key = [] then Some (newClientError ''empty key is not allowed'')
      else if isSpace (hd key) \<or> isSpace (last key)
        then Some (newClientError ''key has whitespace at the beginning or at the end'')
      else if key = ''.'' \<or> key = ''..''
        then Some (newClientError ''key is a dot or two dots'')
      else if CHR ''/'' \<in> set key \<or> CHR 0x5C \<in> set key
        then Some (newClientError ''key contains a slash or a backslash'')
      else None)"

section \<open>The directory abstraction\<close>

text \<open>
  The interface \<^verbatim>\<open>Dir\<close>.  A value of the interface is a directory handle, modelled
  as the list of names that leads to it from the root; Go's \<^verbatim>\<open>nil\<close> is \<open>None\<close>
  where a handle may be absent.  \<^verbatim>\<open>Dir(name)\<close> only builds the handle of the
  subdirectory ("does not check immediately if dir exists").  The other methods belong
  to the implementation: they take the state \<open>'w\<close> of the backing store and return it
  updated, and each may fail with an error.  \<open>'fw\<close> and \<open>'fr\<close> are the streams that
  \<^verbatim>\<open>FileWriter\<close> and \<^verbatim>\<open>FileReader\<close> return.  \<open>String\<close> is the text that
  \<^verbatim>\<open>%s\<close> prints for a handle.
\<close>

type_synonym path = "string list"

definition Dir :: "path \<Rightarrow> string \<Rightarrow> path" where
  "Dir d nm = d @ [nm]"

record ('w, 'fw, 'fr) Dir_methods =
  FileReader :: "path \<Rightarrow> string \<Rightarrow> 'w \<Rightarrow> (error + 'fr) \<times> 'w"
  FileWriter :: "path \<Rightarrow> string \<Rightarrow> 'w \<Rightarrow> (error + 'fw) \<times> 'w"
  Mkdir :: "path \<Rightarrow> 'w \<Rightarrow> error option \<times> 'w"
  Exists :: "path \<Rightarrow> 'w \<Rightarrow> (error + bool) \<times> 'w"
  ListFiles :: "path \<Rightarrow> 'w \<Rightarrow> (error + string list) \<times> 'w"
  String :: "path \<Rightarrow> string"

text \<open>
  Every call of a method of the implementation is recorded, so that what a function
  asks of the directory abstraction can be stated: the state that the functions of the
  package thread is the state of the store together with the calls made so far.
\<close>

datatype dir_call =
    FileReaderCall path string
  | FileWriterCall path string
  | MkdirCall path
  | ExistsCall path
  | ListFilesCall path

record 'w io =
  store :: 'w
  calls :: "dir_call list"

definition call :: "dir_call \<Rightarrow> ('w \<Rightarrow> 'a \<times> 'w) \<Rightarrow> 'w io \<Rightarrow> 'a \<times> 'w io" where
  "call c m st =
     (case m (store st) of (r, w) \<Rightarrow> (r, \<lparr>store = w, calls = calls st @ [c]\<rparr>))"

definition dir_FileReader ::
  "('w, 'fw, 'fr) Dir_methods \<Rightarrow> path \<Rightarrow> string \<Rightarrow> 'w io \<Rightarrow> (error + 'fr) \<times> 'w io" where
  "dir_FileReader fs d nm = call (FileReaderCall d nm) (FileReader fs d nm)"

definition dir_FileWriter ::
  "('w, 'fw, 'fr) Dir_methods \<Rightarrow> path \<Rightarrow> string \<Rightarrow> 'w io \<Rightarrow> (error + 'fw) \<times> 'w io" where
  "dir_FileWriter fs d nm = call (FileWriterCall d nm) (FileWriter fs d nm)"

definition dir_Mkdir ::
  "('w, 'fw, 'fr) Dir_methods \<Rightarrow> path \<Rightarrow> 'w io \<Rightarrow> error option \<times> 'w io" where
  "dir_Mkdir fs d = call (MkdirCall d) (Mkdir fs d)"

definition dir_Exists ::
  "('w, 'fw, 'fr) Dir_methods \<Rightarrow> path \<Rightarrow> 'w io \<Rightarrow> (error + bool) \<times> 'w io" where
  "dir_Exists fs d = call (ExistsCall d) (Exists fs d)"

definition dir_ListFiles ::
  "('w, 'fw, 'fr) Dir_methods \<Rightarrow> path \<Rightarrow> 'w io \<Rightarrow> (error + string list) \<times> 'w io" where
  "dir_ListFiles fs d = call (ListFilesCall d) (ListFiles fs d)"

section \<open>The database handle\<close>

text \<open>
  The struct \<^verbatim>\<open>DB\<close>.  Go's \<^verbatim>\<open>int\<close> is 64 bits wide on the platforms the
  package is tested on, so \<open>version\<close> is a 64-bit word read as a signed number.  The
  mutex is left out: the model runs one call after the other.
\<close>

record DB =
  dir :: path
  version :: "64 word"

text \<open>
  An \<^verbatim>\<open>Option\<close> is a function that may change the handle, may touch the store and
  may fail; a \<^verbatim>\<open>nil\<close> option is \<open>None\<close>.
\<close>

type_synonym 'w Option = "DB \<Rightarrow> 'w io \<Rightarrow> (error option \<times> DB) \<times> 'w io"

text \<open>The loop over the options in \<^verbatim>\<open>Open\<close>.\<close>

fun applyOptions :: "'w Option option list \<Rightarrow> DB \<Rightarrow> 'w io \<Rightarrow> (error + DB) \<times> 'w io" where
  "applyOptions [] s st = (Inr s, st)"
| "applyOptions (None # options) s st = applyOptions options s st"
| "applyOptions (Some apply # options) s st =
     (case apply s st of
        ((Some err, s'), st') \<Rightarrow> (Inl (wrapError ''applying option failed: '' err), st')
      | ((None, s'), st') \<Rightarrow> applyOptions options s' st')"

definition Open ::
  "('w, 'fw, 'fr) Dir_methods \<Rightarrow> path option \<Rightarrow> 'w Option option list \<Rightarrow> 'w io
     \<Rightarrow> (error + DB) \<times> 'w io" where
  "Open fs dir_arg options st =
     (case dir_arg of
        None \<Rightarrow> (Inl (errorString ''nil dir''), st)
      | Some d \<Rightarrow>
          (case dir_Exists fs d st of
             (Inl err, st1) \<Rightarrow> (Inl err, st1)
           | (Inr dirExists, st1) \<Rightarrow>
               if \<not> dirExists
               then (Inl (newClientError (''database dir '' @ String fs d @ '' not found'')), st1)
               else applyOptions options \<lparr>dir = d, version = 0\<rparr> st1))"

definition nextVersionFilename :: "DB \<Rightarrow> string \<times> DB" where
  "nextVersionFilename s = (Sprintf_d (sint (version s)), s\<lparr>version := version s + 1\<rparr>)"

definition Writer ::
  "('w, 'fw, 'fr) Dir_methods \<Rightarrow> DB \<Rightarrow> string \<Rightarrow> 'w io \<Rightarrow> (error + 'fw) \<times> DB \<times> 'w io" where
  "Writer fs s key st =
     (case validateKey key of
        Some err \<Rightarrow> (Inl err, s, st)
      | None \<Rightarrow>
          (let stateDir = Dir (dir s) key in
           case dir_Exists fs stateDir st of
             (Inl err, st1) \<Rightarrow> (Inl err, s, st1)
           | (Inr stateDirExists, st1) \<Rightarrow>
               (case (if \<not> stateDirExists then dir_Mkdir fs stateDir st1 else (None, st1)) of
                  (Some err, st2) \<Rightarrow> (Inl err, s, st2)
                | (None, st2) \<Rightarrow>
                    (case nextVersionFilename s of
                       (nm, s') \<Rightarrow>
                         (case dir_FileWriter fs stateDir nm st2 of
                            (r, st3) \<Rightarrow> (r, s', st3))))))"

definition Reader ::
  "('w, 'fw, 'fr) Dir_methods \<Rightarrow> DB \<Rightarrow> string \<Rightarrow> 'w io \<Rightarrow> (error + 'fr) \<times> 'w io" where
  "Reader fs s key st =
     (case validateKey key of
        Some err \<Rightarrow> (Inl err, st)
      | None \<Rightarrow>
          (let stateDir = Dir (dir s) key in
           case dir_Exists fs stateDir st of
             (Inl err, st1) \<Rightarrow> (Inl err, st1)
           | (Inr stateDirExists, st1) \<Rightarrow>
               if \<not> stateDirExists then (Inl dataNotFoundError, st1)
               else
                 (case dir_ListFiles fs stateDir st1 of
                    (Inl err, st2) \<Rightarrow> (Inl err, st2)
                  | (Inr files, st2) \<Rightarrow>
                      (case youngestFilename (toFilenames files) of
                         (dataFile, exists) \<Rightarrow>
                           if \<not> exists then (Inl dataNotFoundError, st2)
                           else dir_FileReader fs stateDir (name dataFile) st2))))"

section \<open>An in-memory directory\<close>

text \<open>
  Modelled from the spec: the package \<^verbatim>\<open>fake\<close> with the in-memory \<^verbatim>\<open>Dir\<close> of
  the tests is not among the source files.  This one follows the contract written at
  the interface in \<^verbatim>\<open>deebee.go\<close> and in the spec's table of operations:
  \<^verbatim>\<open>FileReader\<close> fails when the file does not exist, \<^verbatim>\<open>FileWriter\<close> creates
  an empty file and fails when the file already exists, \<^verbatim>\<open>Mkdir\<close> does nothing
  when the directory exists, \<^verbatim>\<open>ListFiles\<close> gives the names of the files.  The
  store is an association list from directories to their files, a file being a name
  with its bytes.  A write stream is the place of its file: \<^verbatim>\<open>Write\<close> appends to
  the file and \<^verbatim>\<open>Close\<close> changes nothing.  A read stream holds the bytes that
  \<^verbatim>\<open>ioutil.ReadAll\<close> returns.
\<close>

type_synonym byte = "8 word"

type_synonym mem = "(path \<times> (string \<times> byte list) list) list"

definition fake_FileReader :: "path \<Rightarrow> string \<Rightarrow> mem \<Rightarrow> (error + byte list) \<times> mem" where
  "fake_FileReader d nm w =
     (case map_of w d of
        None \<Rightarrow> (Inl (foreignError ''directory does not exist''), w)
      | Some files \<Rightarrow>
          (case map_of files nm of
             None \<Rightarrow> (Inl (foreignError ''file does not exist''), w)
           | Some bytes \<Rightarrow> (Inr bytes, w)))"

definition fake_FileWriter :: "path \<Rightarrow> string \<Rightarrow> mem \<Rightarrow> (error + path \<times> string) \<times> mem" where
  "fake_FileWriter d nm w =
     (case map_of w d of
        None \<Rightarrow> (Inl (foreignError ''directory does not exist''), w)
      | Some files \<Rightarrow>
          (case map_of files nm of
             Some bytes \<Rightarrow> (Inl (foreignError ''file already exists''), w)
           | None \<Rightarrow> (Inr (d, nm), AList.update d (AList.update nm [] files) w)))"

definition fake_Mkdir :: "path \<Rightarrow> mem \<Rightarrow> error option \<times> mem" where
  "fake_Mkdir d w =
     (case map_of w d of None \<Rightarrow> (None, AList.update d [] w) | Some files \<Rightarrow> (None, w))"

definition fake_Exists :: "path \<Rightarrow> mem \<Rightarrow> (error + bool) \<times> mem" where
  "fake_Exists d w = (Inr (map_of w d \<noteq> None), w)"

definition fake_ListFiles :: "path \<Rightarrow> mem \<Rightarrow> (error + string list) \<times> mem" where
  "fake_ListFiles d w =
     (case map_of w d of
        None \<Rightarrow> (Inl (foreignError ''directory does not exist''), w)
      | Some files \<Rightarrow> (Inr (map fst files), w))"

definition fake_String :: "path \<Rightarrow> string" where
  "fake_String d = concat (map (\<lambda>nm. CHR ''/'' # nm) d)"

definition fake :: "(mem, path \<times> string, byte list) Dir_methods" where
  "fake =
     \<lparr>FileReader = fake_FileReader, FileWriter = fake_FileWriter, Mkdir = fake_Mkdir,
      Exists = fake_Exists, ListFiles = fake_ListFiles, String = fake_String\<rparr>"

definition fake_Write :: "path \<times> string \<Rightarrow> byte list \<Rightarrow> mem io \<Rightarrow> error option \<times> mem io" where
  "fake_Write writer bytes st =
     (case writer of
        (d, nm) \<Rightarrow>
          (case map_of (store st) d of
             None \<Rightarrow> (Some (foreignError ''directory does not exist''), st)
           | Some files \<Rightarrow>
               (case map_of files nm of
                  None \<Rightarrow> (Some (foreignError ''file does not exist''), st)
                | Some old \<Rightarrow>
                    (None,
                     st\<lparr>store := AList.update d (AList.update nm (old @ bytes) files) (store st)\<rparr>))))"

definition fake_Close :: "path \<times> string \<Rightarrow> mem io \<Rightarrow> error option \<times> mem io" where
  "fake_Close writer st = (None, st)"

definition fake_ReadAll :: "byte list \<Rightarrow> error + byte list" where
  "fake_ReadAll reader = Inr reader"

text \<open>The directory of \<^verbatim>\<open>&fake.Dir{}\<close>: it exists and is empty; no call was made.\<close>

definition fake_root :: path where
  "fake_root = []"

definition fake_init :: "mem io" where
  "fake_init = \<lparr>store = [(fake_root, [])], calls = []\<rparr>"

section \<open>Callers\<close>

text \<open>
  The helpers \<^verbatim>\<open>writeData\<close> and \<^verbatim>\<open>readData\<close> of the test file, on the in-memory
  directory: every \<^verbatim>\<open>require.NoError\<close> is a branch that returns the error.  (The
  helper \<^verbatim>\<open>readData\<close> of the test file reads the key \<^verbatim>\<open>"state"\<close> whatever key it
  is given; here it reads the key it is given.)
\<close>

definition writeData :: "DB \<Rightarrow> string \<Rightarrow> byte list \<Rightarrow> mem io \<Rightarrow> error option \<times> DB \<times> mem io" where
  "writeData db key bytes st =
     (case Writer fake db key st of
        (Inl err, db1, st1) \<Rightarrow> (Some err, db1, st1)
      | (Inr writer, db1, st1) \<Rightarrow>
          (case fake_Write writer bytes st1 of
             (Some err, st2) \<Rightarrow> (Some err, db1, st2)
           | (None, st2) \<Rightarrow>
               (case fake_Close writer st2 of (r, st3) \<Rightarrow> (r, db1, st3))))"

definition readData :: "DB \<Rightarrow> string \<Rightarrow> mem io \<Rightarrow> (error + byte list) \<times> mem io" where
  "readData db key st =
     (case Reader fake db key st of
        (Inl err, st1) \<Rightarrow> (Inl err, st1)
      | (Inr reader, st1) \<Rightarrow> (fake_ReadAll reader, st1))"

text \<open>A caller that writes one payload after the other, each to its key.\<close>

fun writeAll :: "DB \<Rightarrow> (string \<times> byte list) list \<Rightarrow> mem io \<Rightarrow> DB \<times> mem io" where
  "writeAll db [] st = (db, st)"
| "writeAll db ((key, bytes) # rest) st =
     (case writeData db key bytes st of (err, db', st') \<Rightarrow> writeAll db' rest st')"

text \<open>A caller that asks one handle for a writer for each key of a list, in order.\<close>

fun Writers ::
  "('w, 'fw, 'fr) Dir_methods \<Rightarrow> DB \<Rightarrow> string list \<Rightarrow> 'w io \<Rightarrow> DB \<times> 'w io" where
  "Writers fs s [] st = (s, st)"
| "Writers fs s (key # keys) st =
     (case Writer fs s key st of (r, s', st') \<Rightarrow> Writers fs s' keys st')"

text \<open>
  The version file names a handle has allocated are the names it has passed to
  \<^verbatim>\<open>FileWriter\<close>: \<^verbatim>\<open>Writer\<close> calls \<^verbatim>\<open>FileWriter\<close> with each name that
  \<^verbatim>\<open>nextVersionFilename\<close> returns, and with nothing else.
\<close>

fun allocated :: "dir_call list \<Rightarrow> string list" where
  "allocated [] = []"
| "allocated (FileWriterCall d nm # cs) = nm # allocated cs"
| "allocated (c # cs) = allocated cs"

section \<open>Checksums\<close>



section \<open>The counter and the stored versions\<close>

text \<open>
  The state in which a handle finds the subdirectory of a key while it is in use: the
  counter is not negative, and every version file of the key has a number below the
  counter.  This holds for a handle that \<^verbatim>\<open>Open\<close> has just returned over a
  directory without version files, and \<^verbatim>\<open>writeData\<close> keeps it.
\<close>

definition counter_above :: "DB \<Rightarrow> string \<Rightarrow> mem io \<Rightarrow> bool" where
  "counter_above s key st =
     (0 \<le> sint (version s) \<and>
      (case map_of (store st) (Dir (dir s) key) of
         None \<Rightarrow> True
       | Some files \<Rightarrow>
           list_all (\<lambda>f. case parseVersion f of None \<Rightarrow> True | Some v \<Rightarrow> v < sint (version s))
             (map fst files)))"

section \<open>Example states\<close>

text \<open>The handle that \<^verbatim>\<open>Open\<close> returns for the in-memory directory.\<close>

definition fresh_db :: DB where
  "fresh_db = \<lparr>dir = fake_root, version = 0\<rparr>"

text \<open>
  A directory in which the key \<^verbatim>\<open>state\<close> has the versions 3, 10 and 9 and a file
  that is not a version.
\<close>

definition versions_3_10_9 :: mem where
  "versions_3_10_9 =
     [([], []), ([''state''], [(''3'', [3]), (''x'', [0]), (''10'', [10]), (''9'', [9])])]"

text \<open>
  A state in which the key \<^verbatim>\<open>a\<close> already has a file \<^verbatim>\<open>1\<close>, and the state
  after a fresh handle was asked for writers for the keys \<^verbatim>\<open>a\<close>, \<^verbatim>\<open>a\<close>,
  \<^verbatim>\<open>/\<close> and \<^verbatim>\<open>b\<close>: the second call could not create its file.
\<close>

definition taken_1 :: "mem io" where
  "taken_1 = \<lparr>store = [([], []), ([''a''], [(''1'', [])])], calls = []\<rparr>"

definition taken_1_after :: "mem io" where
  "taken_1_after =
     \<lparr>store = [([], []), ([''a''], [(''1'', []), (''0'', [])]), ([''b''], [(''2'', [])])],
      calls = [ExistsCall [''a''], FileWriterCall [''a''] ''0'',
               ExistsCall [''a''], FileWriterCall [''a''] ''1'',
               ExistsCall [''b''], MkdirCall [''b''], FileWriterCall [''b''] ''2'']\<rparr>"

section \<open>Basic facts\<close>

lemma call_eq:
  "m (store st) = (r, w) \<Longrightarrow> call c m st = (r, \<lparr>store = w, calls = calls st @ [c]\<rparr>)"
  by (simp add: call_def)

lemma validateKey_client: "validateKey key = Some err \<Longrightarrow> IsClientError err"
  by (auto simp: validateKey_def newClientError_def split: if_splits)

lemma Writer_invalid:
  "validateKey key = Some err \<Longrightarrow> Writer fs s key st = (Inl err, s, st)"
  by (simp add: Writer_def)

lemma Reader_invalid:
  "validateKey key = Some err \<Longrightarrow> Reader fs s key st = (Inl err, st)"
  by (simp add: Reader_def)

lemma leading_space:
  "key \<noteq> [] \<Longrightarrow> (\<exists>c cs. key = c # cs \<and> isSpace c) \<longleftrightarrow> isSpace (hd key)"
  by (cases key) auto

lemma trailing_space:
  "key \<noteq> [] \<Longrightarrow> (\<exists>cs c. key = cs @ [c] \<and> isSpace c) \<longleftrightarrow> isSpace (last key)"
  by (cases key rule: rev_cases) auto

lemma validateKey_None_iff:
  "validateKey key = None \<longleftrightarrow>
     \<not> (key = [] \<or> (\<exists>c cs. key = c # cs \<and> isSpace c) \<or> (\<exists>cs c. key = cs @ [c] \<and> isSpace c)
        \<or> key = ''.'' \<or> key = ''..'' \<or> CHR ''/'' \<in> set key \<or> CHR 0x5C \<in> set key)"
proof (cases "key = []")
  case True
  then show ?thesis by (simp add: validateKey_def)
next
  case False
  show ?thesis
    unfolding leading_space [OF False] trailing_space [OF False]
    using False by (simp add: validateKey_def)
qed

text \<open>The invalid keys of the test file are rejected, and \<^verbatim>\<open>"state"\<close> is accepted.\<close>

lemma test_invalid_keys:
  "list_all (\<lambda>key. validateKey key \<noteq> None)
     ['''', '' a'', ''a '', ''.'', ''..'', ''/'', ''a/b'', [CHR 0x5C],
      [CHR ''a'', CHR 0x5C, CHR ''b'']]"
  by (simp add: validateKey_def isSpace_def)

lemma test_valid_key: "validateKey ''state'' = None"
  by (simp add: validateKey_def isSpace_def)

section \<open>Key validation\<close>

text \<open>
  Claim C3.  A key that is empty, begins or ends with a whitespace character, is
  \<^verbatim>\<open>.\<close> or \<^verbatim>\<open>..\<close>, or contains a slash or a backslash makes both
  \<^verbatim>\<open>Writer\<close> and \<^verbatim>\<open>Reader\<close> return an error that \<^verbatim>\<open>IsClientError\<close>
  accepts, and no stream (the result is the error side of the sum); every other key is
  accepted by \<^verbatim>\<open>validateKey\<close>.
\<close>

theorem invalid_key_rejected:
  "((key = [] \<or> (\<exists>c cs. key = c # cs \<and> isSpace c) \<or> (\<exists>cs c. key = cs @ [c] \<and> isSpace c)
      \<or> key = ''.'' \<or> key = ''..'' \<or> CHR ''/'' \<in> set key \<or> CHR 0x5C \<in> set key) \<longrightarrow>
     (\<exists>err. IsClientError err \<and> fst (Writer fs s key st) = Inl err)
     \<and> (\<exists>err. IsClientError err \<and> fst (Reader fs s key st) = Inl err))
   \<and> (\<not> (key = [] \<or> (\<exists>c cs. key = c # cs \<and> isSpace c) \<or> (\<exists>cs c. key = cs @ [c] \<and> isSpace c)
      \<or> key = ''.'' \<or> key = ''..'' \<or> CHR ''/'' \<in> set key \<or> CHR 0x5C \<in> set key) \<longrightarrow>
     validateKey key = None)"
proof (cases "validateKey key")
  case None
  then show ?thesis using validateKey_None_iff [of key] by blast
next
  case (Some err)
  then have "IsClientError err" by (rule validateKey_client)
  moreover have "fst (Writer fs s key st) = Inl err" by (simp add: Writer_invalid [OF Some])
  moreover have "fst (Reader fs s key st) = Inl err" by (simp add: Reader_invalid [OF Some])
  ultimately show ?thesis using Some validateKey_None_iff [of key] by auto
qed

theorem invalid_key_rejected_witness:
  "(\<exists>err. IsClientError err
      \<and> fst (Writer fake \<lparr>dir = fake_root, version = 0\<rparr> '' a'' fake_init) = Inl err)
   \<and> (\<exists>err. IsClientError err
      \<and> fst (Reader fake \<lparr>dir = fake_root, version = 0\<rparr> '' a'' fake_init) = Inl err)
   \<and> validateKey ''state'' = None"
proof -
  have bad: "\<exists>c cs. '' a'' = c # cs \<and> isSpace c"
    by (simp add: isSpace_def)
  have good: "\<not> (''state'' = [] \<or> (\<exists>c cs. ''state'' = c # cs \<and> isSpace c)
      \<or> (\<exists>cs c. ''state'' = cs @ [c] \<and> isSpace c)
      \<or> ''state'' = ''.'' \<or> ''state'' = ''..'' \<or> CHR ''/'' \<in> set ''state''
      \<or> CHR 0x5C \<in> set ''state'')"
    by (auto simp: isSpace_def snoc_eq_iff_butlast)
  note t = invalid_key_rejected [of _ fake "\<lparr>dir = fake_root, version = 0\<rparr>" fake_init]
  from t [of "'' a''", THEN conjunct1, THEN mp, OF disjI2 [OF disjI1 [OF bad]]]
    t [of "''state''", THEN conjunct2, THEN mp, OF good]
  show ?thesis by (intro conjI) (erule conjunct1, erule conjunct2, assumption)
qed

section \<open>Validation comes before any use of the directory\<close>

text \<open>
  Claim C9.  For a key that \<^verbatim>\<open>validateKey\<close> rejects, \<^verbatim>\<open>Writer\<close> and
  \<^verbatim>\<open>Reader\<close> return the error of the validation, which is a client error, and
  hand back the state they were given: the store is the same, the list of recorded
  calls is the same, so no \<^verbatim>\<open>Exists\<close>, \<^verbatim>\<open>Mkdir\<close>, \<^verbatim>\<open>ListFiles\<close>,
  \<^verbatim>\<open>FileReader\<close> or \<^verbatim>\<open>FileWriter\<close> call was made, and the handle, with its
  version counter, is unchanged.
\<close>

theorem invalid_key_no_io:
  "validateKey key = Some err \<Longrightarrow>
     IsClientError err \<and> Writer fs s key st = (Inl err, s, st)
       \<and> Reader fs s key st = (Inl err, st)"
  by (simp add: validateKey_client Writer_invalid Reader_invalid)

theorem invalid_key_no_io_witness:
  "validateKey ''a/b'' = Some (clientError ''key contains a slash or a backslash'')
   \<and> IsClientError (clientError ''key contains a slash or a backslash'')
   \<and> Writer fake \<lparr>dir = fake_root, version = 7\<rparr> ''a/b'' fake_init
       = (Inl (clientError ''key contains a slash or a backslash''),
          \<lparr>dir = fake_root, version = 7\<rparr>, fake_init)
   \<and> Reader fake \<lparr>dir = fake_root, version = 7\<rparr> ''a/b'' fake_init
       = (Inl (clientError ''key contains a slash or a backslash''), fake_init)"
proof -
  have h: "validateKey ''a/b'' = Some (clientError ''key contains a slash or a backslash'')"
    by (simp add: validateKey_def isSpace_def newClientError_def)
  from h invalid_key_no_io [OF h, of fake "\<lparr>dir = fake_root, version = 7\<rparr>" fake_init]
  show ?thesis by blast
qed

section \<open>Opening a database\<close>

text \<open>
  Claim C7, amended.  \<^verbatim>\<open>Open\<close> with a nil directory returns no handle and the
  error \<^verbatim>\<open>errors.New("nil dir")\<close>, whatever the options, without touching the
  store.  That error is a plain error: it is not built by \<^verbatim>\<open>newClientError\<close>,
  and \<^verbatim>\<open>IsClientError\<close> does not accept it, as the counterexample shows.
\<close>

theorem Open_nil_dir: "Open fs None options st = (Inl (errorString ''nil dir''), st)"
  by (simp add: Open_def)

theorem Open_nil_dir_not_client:
  "fst (Open fake None [] fake_init) = Inl (errorString ''nil dir'')
     \<and> \<not> IsClientError (errorString ''nil dir'')"
  by (simp add: Open_def)

text \<open>
  Claim C10.  When \<^verbatim>\<open>Exists\<close> of the directory reports false, \<^verbatim>\<open>Open\<close>
  returns no handle and an error that \<^verbatim>\<open>IsClientError\<close> accepts and that is not
  a not-found error; the only call it has made is that \<^verbatim>\<open>Exists\<close>.
\<close>

theorem Open_missing_dir:
  "Exists fs d (store st) = (Inr False, w) \<Longrightarrow>
     \<exists>err. IsClientError err \<and> \<not> IsDataNotFound err
       \<and> Open fs (Some d) options st
           = (Inl err, \<lparr>store = w, calls = calls st @ [ExistsCall d]\<rparr>)"
  by (simp add: Open_def dir_Exists_def call_eq newClientError_def)

theorem Open_missing_dir_witness:
  "Exists fake [''db''] (store fake_init) = (Inr False, store fake_init)
   \<and> (\<exists>err. IsClientError err \<and> \<not> IsDataNotFound err
       \<and> Open fake (Some [''db'']) [] fake_init
           = (Inl err,
              \<lparr>store = store fake_init, calls = calls fake_init @ [ExistsCall [''db'']]\<rparr>))"
proof -
  have h: "Exists fake [''db''] (store fake_init) = (Inr False, store fake_init)"
    by (simp add: fake_def fake_Exists_def fake_init_def fake_root_def)
  show ?thesis using h Open_missing_dir [OF h, of "[]"] by simp
qed

section \<open>Options\<close>





section \<open>Selecting the youngest version\<close>

lemma toFilenames_set:
  "(g :: filename) \<in> set (toFilenames files) \<longleftrightarrow>
     name g \<in> set files \<and> parseVersion (name g) = Some (ver g)"
  by (induction files) (auto split: option.splits)

lemma toFilenames_empty:
  "toFilenames files = [] \<longleftrightarrow> list_all (\<lambda>f. parseVersion f = None) files"
  by (induction files) (auto split: option.splits)

lemma youngestFilename_exists: "snd (youngestFilename filenames) = (filenames \<noteq> [])"
  by (induction filenames) (auto split: prod.splits)

lemma youngestFilename_greatest:
  "youngestFilename filenames = (g, True) \<Longrightarrow>
     g \<in> set filenames \<and> (\<forall>f \<in> set filenames. ver f \<le> ver g)"
proof (induction filenames arbitrary: g)
  case Nil
  then show ?case by simp
next
  case (Cons f filenames)
  obtain h ex where h: "youngestFilename filenames = (h, ex)"
    by (cases "youngestFilename filenames")
  show ?case
  proof (cases ex)
    case True
    with h Cons.IH [of h] have "h \<in> set filenames" "\<forall>f \<in> set filenames. ver f \<le> ver h"
      by simp_all
    with Cons.prems h True show ?thesis by (auto split: if_splits)
  next
    case False
    with h youngestFilename_exists [of filenames] have "filenames = []" by simp
    with Cons.prems show ?thesis by simp
  qed
qed

lemma Reader_valid:
  assumes "validateKey key = None"
    and "Exists fs (Dir (dir s) key) (store st) = (Inr True, w1)"
    and "ListFiles fs (Dir (dir s) key) w1 = (Inr files, w2)"
  shows "Reader fs s key st =
     (case youngestFilename (toFilenames files) of
        (dataFile, exists) \<Rightarrow>
          if \<not> exists
          then (Inl dataNotFoundError,
                \<lparr>store = w2,
                   calls = calls st @ [ExistsCall (Dir (dir s) key), ListFilesCall (Dir (dir s) key)]\<rparr>)
          else (case FileReader fs (Dir (dir s) key) (name dataFile) w2 of
                  (r, w3) \<Rightarrow>
                    (r, \<lparr>store = w3,
                         calls = calls st @ [ExistsCall (Dir (dir s) key),
                           ListFilesCall (Dir (dir s) key),
                           FileReaderCall (Dir (dir s) key) (name dataFile)]\<rparr>)))"
  using assms
  by (simp add: Reader_def Let_def dir_Exists_def dir_ListFiles_def dir_FileReader_def call_def
      split: prod.splits)

section \<open>Reading a key without data\<close>

text \<open>
  Claim C4.  For a valid key, when \<^verbatim>\<open>Exists\<close> of the key's subdirectory reports
  false, or reports true and \<^verbatim>\<open>ListFiles\<close> gives names none of which parses as a
  version, \<^verbatim>\<open>Reader\<close> returns no stream and \<open>dataNotFoundError\<close>, which
  \<^verbatim>\<open>IsDataNotFound\<close> accepts and \<^verbatim>\<open>IsClientError\<close> does not.
\<close>

theorem Reader_not_found:
  assumes "validateKey key = None"
    and "Exists fs (Dir (dir s) key) (store st) = (Inr False, w)
       \<or> (\<exists>w1. Exists fs (Dir (dir s) key) (store st) = (Inr True, w1)
            \<and> ListFiles fs (Dir (dir s) key) w1 = (Inr files, w)
            \<and> list_all (\<lambda>f. parseVersion f = None) files)"
  shows "fst (Reader fs s key st) = Inl dataNotFoundError
     \<and> IsDataNotFound dataNotFoundError \<and> \<not> IsClientError dataNotFoundError"
proof -
  from assms(2) have "fst (Reader fs s key st) = Inl dataNotFoundError"
  proof
    assume "Exists fs (Dir (dir s) key) (store st) = (Inr False, w)"
    with assms(1) show ?thesis
      by (simp add: Reader_def Let_def dir_Exists_def call_def)
  next
    assume "\<exists>w1. Exists fs (Dir (dir s) key) (store st) = (Inr True, w1)
            \<and> ListFiles fs (Dir (dir s) key) w1 = (Inr files, w)
            \<and> list_all (\<lambda>f. parseVersion f = None) files"
    then obtain w1 where e: "Exists fs (Dir (dir s) key) (store st) = (Inr True, w1)"
      and l: "ListFiles fs (Dir (dir s) key) w1 = (Inr files, w)"
      and n: "list_all (\<lambda>f. parseVersion f = None) files"
      by blast
    from n have "toFilenames files = []" by (simp add: toFilenames_empty)
    then show ?thesis by (simp add: Reader_valid [OF assms(1) e l])
  qed
  then show ?thesis by simp
qed

theorem Reader_not_found_witness:
  "validateKey ''state'' = None
   \<and> fst (Reader fake \<lparr>dir = fake_root, version = 0\<rparr> ''state'' fake_init)
       = Inl dataNotFoundError
   \<and> fst (Reader fake \<lparr>dir = fake_root, version = 0\<rparr> ''state''
            \<lparr>store = [([], []), ([''state''], [(''notes.txt'', [1, 2])])], calls = []\<rparr>)
       = Inl dataNotFoundError
   \<and> IsDataNotFound dataNotFoundError \<and> \<not> IsClientError dataNotFoundError"
proof -
  have k: "validateKey ''state'' = None"
    by (rule test_valid_key)
  have absent: "Exists fake (Dir (dir \<lparr>dir = fake_root, version = 0\<rparr>) ''state'') (store fake_init)
      = (Inr False, store fake_init)"
    by (simp add: fake_def fake_Exists_def fake_init_def fake_root_def Dir_def)
  let ?st = "\<lparr>store = [([], []), ([''state''], [(''notes.txt'', [1, 2 :: byte])])], calls = []\<rparr>"
  have foreign: "\<exists>w1. Exists fake (Dir (dir \<lparr>dir = fake_root, version = 0\<rparr>) ''state'') (store ?st)
        = (Inr True, w1)
      \<and> ListFiles fake (Dir (dir \<lparr>dir = fake_root, version = 0\<rparr>) ''state'') w1
        = (Inr [''notes.txt''], store ?st)
      \<and> list_all (\<lambda>f. parseVersion f = None) [''notes.txt'']"
    by (simp add: fake_def fake_Exists_def fake_ListFiles_def fake_root_def Dir_def
        parseVersion_def digit_val_def)
  from Reader_not_found [OF k disjI1 [OF absent]] Reader_not_found [OF k disjI2 [OF foreign]] k
  show ?thesis by blast
qed

section \<open>No checksum verification\<close>



section \<open>Decimal names parse back\<close>

lemma digit_val_digit_char: "d < 10 \<Longrightarrow> digit_val (digit_char d) = Some d"
proof -
  assume "d < 10"
  then have "d \<in> {0, 1, 2, 3, 4, 5, 6, 7, 8, 9}" by auto
  then show ?thesis
    by (auto simp: digit_val_def digit_char_def)
qed

lemma parse_digits_snoc:
  "parse_digits acc (cs @ [c]) =
     (case parse_digits acc cs of
        None \<Rightarrow> None
      | Some a \<Rightarrow> (case digit_val c of None \<Rightarrow> None | Some d \<Rightarrow> Some (10 * a + d)))"
  by (induction cs arbitrary: acc) (auto split: option.splits)

lemma decimal_not_empty: "decimal n \<noteq> []"
  by (subst decimal.simps) simp

lemma parse_digits_decimal: "parse_digits 0 (decimal n) = Some n"
proof (induction n rule: decimal.induct)
  case (1 n)
  show ?case
  proof (cases "n < 10")
    case True
    then show ?thesis
      by (subst decimal.simps) (simp add: digit_val_digit_char)
  next
    case False
    with "1.IH" have "parse_digits 0 (decimal (n div 10)) = Some (n div 10)" by simp
    with False show ?thesis
      by (subst decimal.simps) (simp add: parse_digits_snoc digit_val_digit_char)
  qed
qed

lemma parseVersion_Sprintf_d: "0 \<le> v \<Longrightarrow> parseVersion (Sprintf_d v) = Some v"
  by (simp add: parseVersion_def Sprintf_d_def decimal_not_empty parse_digits_decimal)

section \<open>Writing and reading in the in-memory directory\<close>

lemma sint_succ:
  "sint (x :: 64 word) < 2 ^ 63 - 1 \<Longrightarrow> sint (x + 1) = sint x + 1"
proof -
  assume a: "sint x < 2 ^ 63 - 1"
  have "- (2 ^ 63) \<le> sint x" using sint_ge [of x] by simp
  with a have "signed_take_bit 63 (sint x + 1) = sint x + 1"
    by (intro signed_take_bit_int_eq_self) simp_all
  then show ?thesis by (simp add: sint_word_add)
qed

lemma names_below_fresh:
  assumes "list_all (\<lambda>f. case parseVersion f of None \<Rightarrow> True | Some u \<Rightarrow> u < v) names"
    and "parseVersion nm = Some v"
  shows "nm \<notin> set names"
proof
  assume "nm \<in> set names"
  with assms(1) have "case parseVersion nm of None \<Rightarrow> True | Some u \<Rightarrow> u < v"
    by (simp add: list_all_iff)
  with assms(2) show False by simp
qed

lemma writeData_stores:
  assumes key: "validateKey key = None"
    and inv: "counter_above s key st"
  shows "\<exists>st' files'. writeData s key bytes st = (None, s\<lparr>version := version s + 1\<rparr>, st')
     \<and> map_of (store st') (Dir (dir s) key) = Some files'
     \<and> map_of files' (Sprintf_d (sint (version s))) = Some bytes
     \<and> fst ` set files' = insert (Sprintf_d (sint (version s)))
         (case map_of (store st) (Dir (dir s) key) of None \<Rightarrow> {} | Some files \<Rightarrow> fst ` set files)"
proof (cases "map_of (store st) (Dir (dir s) key)")
  case None
  with key show ?thesis
    by (simp add: writeData_def Writer_def Let_def nextVersionFilename_def dir_Exists_def
        dir_Mkdir_def dir_FileWriter_def call_def fake_def fake_Exists_def fake_Mkdir_def
        fake_FileWriter_def fake_Write_def fake_Close_def update_conv')
next
  case (Some files)
  from inv have nonneg: "0 \<le> sint (version s)" by (simp add: counter_above_def)
  from inv Some have "list_all
      (\<lambda>f. case parseVersion f of None \<Rightarrow> True | Some u \<Rightarrow> u < sint (version s)) (map fst files)"
    by (simp add: counter_above_def)
  from names_below_fresh [OF this parseVersion_Sprintf_d [OF nonneg]]
  have "map_of files (Sprintf_d (sint (version s))) = None"
    by (simp add: map_of_eq_None_iff)
  with key Some show ?thesis
    by (simp add: writeData_def Writer_def Let_def nextVersionFilename_def dir_Exists_def
        dir_Mkdir_def dir_FileWriter_def call_def fake_def fake_Exists_def fake_Mkdir_def
        fake_FileWriter_def fake_Write_def fake_Close_def update_conv' dom_update
        flip: dom_map_of_conv_image_fst)
qed

lemma readData_youngest:
  assumes key: "validateKey key = None"
    and sub: "map_of (store st) (Dir (dir s) key) = Some files"
    and content: "map_of files nm = Some bytes"
    and nm: "parseVersion nm = Some v"
    and others: "list_all (\<lambda>f. case parseVersion f of None \<Rightarrow> True | Some u \<Rightarrow> u < v)
        (filter (\<lambda>f. f \<noteq> nm) (map fst files))"
  shows "fst (readData s key st) = Inr bytes"
proof -
  let ?d = "Dir (dir s) key"
  have e: "Exists fake ?d (store st) = (Inr True, store st)"
    using sub by (simp add: fake_def fake_Exists_def)
  have l: "ListFiles fake ?d (store st) = (Inr (map fst files), store st)"
    using sub by (simp add: fake_def fake_ListFiles_def)
  from content have nm_in: "nm \<in> set (map fst files)"
    by (auto dest: map_of_SomeD intro: rev_image_eqI)
  with nm have entry: "\<lparr>name = nm, ver = v\<rparr> \<in> set (toFilenames (map fst files))"
    by (simp add: toFilenames_set)
  then have "toFilenames (map fst files) \<noteq> []" by auto
  then obtain g where g: "youngestFilename (toFilenames (map fst files)) = (g, True)"
    using youngestFilename_exists [of "toFilenames (map fst files)"]
    by (cases "youngestFilename (toFilenames (map fst files))") auto
  from youngestFilename_greatest [OF g] entry
  have g_in: "g \<in> set (toFilenames (map fst files))" and g_max: "v \<le> ver g"
    by auto
  from g_in have g_name: "name g \<in> set (map fst files)" and g_ver: "parseVersion (name g) = Some (ver g)"
    by (simp_all add: toFilenames_set)
  have "name g = nm"
  proof (rule ccontr)
    assume "name g \<noteq> nm"
    with g_name have "name g \<in> set (filter (\<lambda>f. f \<noteq> nm) (map fst files))" by simp
    with others have "case parseVersion (name g) of None \<Rightarrow> True | Some u \<Rightarrow> u < v"
      by (simp only: list_all_iff)
    with g_ver g_max show False by simp
  qed
  moreover have "FileReader fake ?d nm (store st) = (Inr bytes, store st)"
    using sub content by (simp add: fake_def fake_FileReader_def)
  ultimately have "fst (Reader fake s key st) = Inr bytes"
    using g by (simp add: Reader_valid [OF key e l])
  then show ?thesis
    by (cases "Reader fake s key st") (simp add: readData_def fake_ReadAll_def)
qed

lemma counter_above_others:
  assumes inv: "counter_above s key st"
    and names: "fst ` set files' = insert nm
        (case map_of (store st) (Dir (dir s) key) of None \<Rightarrow> {} | Some files \<Rightarrow> fst ` set files)"
  shows "list_all (\<lambda>f. case parseVersion f of None \<Rightarrow> True | Some u \<Rightarrow> u < sint (version s))
     (filter (\<lambda>f. f \<noteq> nm) (map fst files'))"
proof -
  have "case parseVersion f of None \<Rightarrow> True | Some u \<Rightarrow> u < sint (version s)"
    if "f \<in> fst ` set files'" and "f \<noteq> nm" for f
  proof (cases "map_of (store st) (Dir (dir s) key)")
    case None
    with names that show ?thesis by simp
  next
    case (Some files)
    with names that have "f \<in> set (map fst files)" by simp
    moreover from inv Some have "list_all
        (\<lambda>f. case parseVersion f of None \<Rightarrow> True | Some u \<Rightarrow> u < sint (version s))
        (map fst files)"
      by (simp add: counter_above_def)
    ultimately show ?thesis by (simp only: list_all_iff)
  qed
  then show ?thesis by (simp add: list_all_iff)
qed

lemma writeData_keeps_counter_above:
  assumes key: "validateKey key = None"
    and inv: "counter_above s key st"
    and room: "sint (version s) < 2 ^ 63 - 1"
    and w: "writeData s key bytes st = (err, s', st')"
  shows "counter_above s' key st'"
proof -
  let ?nm = "Sprintf_d (sint (version s))"
  from writeData_stores [OF key inv, of bytes] w obtain files'
    where s': "s' = s\<lparr>version := version s + 1\<rparr>"
      and sub: "map_of (store st') (Dir (dir s) key) = Some files'"
      and names: "fst ` set files' = insert ?nm
        (case map_of (store st) (Dir (dir s) key) of None \<Rightarrow> {} | Some files \<Rightarrow> fst ` set files)"
    by auto
  from inv have nonneg: "0 \<le> sint (version s)" by (simp add: counter_above_def)
  have next_v: "sint (version s + 1) = sint (version s) + 1"
    using room by (rule sint_succ)
  with s' have v': "sint (version s') = sint (version s) + 1" and d': "dir s' = dir s"
    by simp_all
  have "case parseVersion (fst p) of None \<Rightarrow> True | Some u \<Rightarrow> u < sint (version s')"
    if "p \<in> set files'" for p
  proof (cases "fst p = ?nm")
    case True
    then show ?thesis by (simp add: parseVersion_Sprintf_d [OF nonneg] v')
  next
    case False
    from that have "fst p \<in> fst ` set files'" by simp
    with False counter_above_others [OF inv names]
    have "case parseVersion (fst p) of None \<Rightarrow> True | Some u \<Rightarrow> u < sint (version s)"
      by (simp add: list_all_iff)
    then show ?thesis by (cases "parseVersion (fst p)") (simp_all add: v')
  qed
  then have "list_all
      (\<lambda>f. case parseVersion f of None \<Rightarrow> True | Some u \<Rightarrow> u < sint (version s'))
      (map fst files')"
    by (simp add: list_all_iff)
  with nonneg sub v' d' show ?thesis
    by (simp add: counter_above_def)
qed

lemma writeData_readData:
  assumes "validateKey key = None"
    and "counter_above s key st"
  shows "case writeData s key bytes st of
     (err, s', st') \<Rightarrow> err = None \<and> fst (readData s' key st') = Inr bytes"
proof -
  let ?nm = "Sprintf_d (sint (version s))"
  from writeData_stores [OF assms, of bytes] obtain st' files'
    where w: "writeData s key bytes st = (None, s\<lparr>version := version s + 1\<rparr>, st')"
      and sub: "map_of (store st') (Dir (dir s) key) = Some files'"
      and content: "map_of files' ?nm = Some bytes"
      and names: "fst ` set files' = insert ?nm
        (case map_of (store st) (Dir (dir s) key) of None \<Rightarrow> {} | Some files \<Rightarrow> fst ` set files)"
    by blast
  from assms(2) have "0 \<le> sint (version s)" by (simp add: counter_above_def)
  then have nm: "parseVersion ?nm = Some (sint (version s))" by (rule parseVersion_Sprintf_d)
  from sub have sub': "map_of (store st') (Dir (dir (s\<lparr>version := version s + 1\<rparr>)) key) = Some files'"
    by simp
  from readData_youngest [OF assms(1) sub' content nm counter_above_others [OF assms(2) names]]
  have "fst (readData (s\<lparr>version := version s + 1\<rparr>) key st') = Inr bytes" .
  with w show ?thesis by simp
qed

section \<open>The counter stays above the stored versions\<close>

lemma writeData_other_dirs:
  assumes key: "validateKey key = None"
    and inv: "counter_above s key st"
    and w: "writeData s key bytes st = (err, s', st')"
    and other: "d \<noteq> Dir (dir s) key"
  shows "map_of (store st') d = map_of (store st) d"
proof (cases "map_of (store st) (Dir (dir s) key)")
  case None
  with key w other show ?thesis
    by (auto simp: writeData_def Writer_def Let_def nextVersionFilename_def dir_Exists_def
        dir_Mkdir_def dir_FileWriter_def call_def fake_def fake_Exists_def fake_Mkdir_def
        fake_FileWriter_def fake_Write_def fake_Close_def update_conv')
next
  case (Some files)
  from inv have nonneg: "0 \<le> sint (version s)" by (simp add: counter_above_def)
  from inv Some have "list_all
      (\<lambda>f. case parseVersion f of None \<Rightarrow> True | Some u \<Rightarrow> u < sint (version s)) (map fst files)"
    by (simp add: counter_above_def)
  from names_below_fresh [OF this parseVersion_Sprintf_d [OF nonneg]]
  have "map_of files (Sprintf_d (sint (version s))) = None"
    by (simp add: map_of_eq_None_iff)
  with key Some w other show ?thesis
    by (auto simp: writeData_def Writer_def Let_def nextVersionFilename_def dir_Exists_def
        dir_Mkdir_def dir_FileWriter_def call_def fake_def fake_Exists_def fake_Mkdir_def
        fake_FileWriter_def fake_Write_def fake_Close_def update_conv')
qed

lemma writeData_invalid:
  "validateKey key = Some e \<Longrightarrow> writeData s key bytes st = (Some e, s, st)"
  by (simp add: writeData_def Writer_invalid)

lemma writeData_keeps_all:
  assumes inv: "\<And>k. counter_above s k st"
    and room: "sint (version s) < 2 ^ 63 - 1"
    and w: "writeData s key bytes st = (err, s', st')"
  shows "counter_above s' k st'"
    and "sint (version s') \<le> sint (version s) + 1"
proof -
  have "counter_above s' k st' \<and> sint (version s') \<le> sint (version s) + 1"
  proof (cases "validateKey key")
    case (Some e)
    with w inv show ?thesis by (simp add: writeData_invalid)
  next
    case None
    from writeData_stores [OF None inv, of bytes] w
    have s': "s' = s\<lparr>version := version s + 1\<rparr>" by auto
    have v': "sint (version s') = sint (version s) + 1"
      using s' sint_succ [OF room] by simp
    show ?thesis
    proof (cases "Dir (dir s) k = Dir (dir s) key")
      case True
      then have "k = key" by (simp add: Dir_def)
      with writeData_keeps_counter_above [OF None inv room w] v' show ?thesis by simp
    next
      case False
      from writeData_other_dirs [OF None inv w False]
      have same: "map_of (store st') (Dir (dir s') k) = map_of (store st) (Dir (dir s) k)"
        by (simp add: s')
      from inv [of k] have nonneg: "0 \<le> sint (version s)" by (simp add: counter_above_def)
      show ?thesis
      proof (cases "map_of (store st) (Dir (dir s) k)")
        case None
        with same nonneg v' show ?thesis by (simp add: counter_above_def)
      next
        case (Some files)
        with inv [of k] have old: "\<forall>f \<in> set (map fst files).
            case parseVersion f of None \<Rightarrow> True | Some u \<Rightarrow> u < sint (version s)"
          by (simp add: counter_above_def list_all_iff)
        have "case parseVersion f of None \<Rightarrow> True | Some u \<Rightarrow> u < sint (version s')"
          if "f \<in> set (map fst files)" for f
          using old that by (cases "parseVersion f") (auto simp: v')
        then have "list_all
            (\<lambda>f. case parseVersion f of None \<Rightarrow> True | Some u \<Rightarrow> u < sint (version s'))
            (map fst files)"
          by (simp only: list_all_iff) blast
        with same Some nonneg v' show ?thesis by (simp add: counter_above_def)
      qed
    qed
  qed
  then show "counter_above s' k st'" and "sint (version s') \<le> sint (version s) + 1"
    by simp_all
qed

lemma writeAll_keeps_all:
  assumes "\<And>k. counter_above s k st"
    and "sint (version s) + int (length writes) \<le> 2 ^ 63 - 1"
    and "writeAll s writes st = (s', st')"
  shows "counter_above s' k st'"
  using assms
proof (induction writes arbitrary: s st)
  case Nil
  then show ?case by simp
next
  case (Cons kb writes)
  obtain key bytes where kb: "kb = (key, bytes)" by (cases kb)
  obtain err s1 st1 where w: "writeData s key bytes st = (err, s1, st1)"
    by (cases "writeData s key bytes st")
  from Cons.prems(2) have room: "sint (version s) < 2 ^ 63 - 1" by simp
  note step = writeData_keeps_all [OF Cons.prems(1) room w]
  from step(2) Cons.prems(2) have "sint (version s1) + int (length writes) \<le> 2 ^ 63 - 1"
    by simp
  moreover from Cons.prems(3) kb w have "writeAll s1 writes st1 = (s', st')" by simp
  ultimately show ?case using step(1) Cons.IH [of s1 st1] by blast
qed

lemma fresh_counter_above: "counter_above fresh_db k fake_init"
  by (simp add: counter_above_def fresh_db_def fake_init_def fake_root_def Dir_def)

section \<open>Write, then read\<close>



text \<open>
  So the round trip holds at every point in the life of a handle that was opened over
  the empty in-memory directory: after any writes, fewer than \<open>2 ^ 63\<close>, a further
  write to a valid key is read back.
\<close>

lemma round_trip_after_writes:
  assumes "length writes < 2 ^ 63"
    and "validateKey key = None"
    and "writeAll fresh_db writes fake_init = (db, st)"
  shows "case writeData db key bytes st of
     (err, db', st') \<Rightarrow> err = None \<and> fst (readData db' key st') = Inr bytes"
proof -
  from assms(1) have "int (length writes) < int (2 ^ 63)" by (simp only: of_nat_less_iff)
  then have "sint (version fresh_db) + int (length writes) \<le> 2 ^ 63 - 1"
    by (simp add: fresh_db_def)
  from writeAll_keeps_all [OF fresh_counter_above this assms(3)]
  have "counter_above db key st" .
  with assms(2) show ?thesis by (rule writeData_readData)
qed

section \<open>Which version is read\<close>





text \<open>The name that is opened in this example is \<^verbatim>\<open>10\<close>, the greatest number.\<close>

lemma youngest_example:
  "fst (Reader fake fresh_db ''state'' \<lparr>store = versions_3_10_9, calls = []\<rparr>) = Inr [10]"
  by (simp add: Reader_def Let_def validateKey_def isSpace_def dir_Exists_def
      dir_ListFiles_def dir_FileReader_def call_def fake_def fake_Exists_def
      fake_ListFiles_def fake_FileReader_def fake_root_def Dir_def parseVersion_def
      digit_val_def fresh_db_def versions_3_10_9_def)

section \<open>Allocation of version numbers\<close>

lemma allocated_append: "allocated (cs @ ds) = allocated cs @ allocated ds"
  by (induction cs rule: allocated.induct) simp_all

lemma Writer_allocates:
  "Writer fs s key st = (r, s', st') \<Longrightarrow>
     (s' = s \<and> allocated (calls st') = allocated (calls st))
     \<or> (s' = s\<lparr>version := version s + 1\<rparr>
        \<and> allocated (calls st') = allocated (calls st) @ [Sprintf_d (sint (version s))])"
  by (auto simp: Writer_def Let_def nextVersionFilename_def dir_Exists_def dir_Mkdir_def
      dir_FileWriter_def call_def allocated_append
      split: option.splits prod.splits sum.splits if_splits)

lemma upt_0_Suc_map: "map f [0..<Suc n] = f 0 # map (\<lambda>i. f (Suc i)) [0..<n]"
  by (simp only: upt_conv_Cons [of 0 "Suc n"] map_Suc_upt [symmetric] list.map map_map o_def)

lemma Writers_allocates:
  "Writers fs s keys st = (s', st') \<Longrightarrow>
     \<exists>n. n \<le> length keys \<and> s' = s\<lparr>version := version s + of_nat n\<rparr>
       \<and> allocated (calls st')
           = allocated (calls st) @ map (\<lambda>i. Sprintf_d (sint (version s + of_nat i))) [0..<n]"
proof (induction keys arbitrary: s st)
  case Nil
  then show ?case by simp
next
  case (Cons key keys)
  obtain r s1 st1 where w: "Writer fs s key st = (r, s1, st1)"
    by (cases "Writer fs s key st")
  with Cons.prems have rest: "Writers fs s1 keys st1 = (s', st')" by simp
  from Cons.IH [OF rest] obtain n where n: "n \<le> length keys"
    "s' = s1\<lparr>version := version s1 + of_nat n\<rparr>"
    "allocated (calls st')
       = allocated (calls st1) @ map (\<lambda>i. Sprintf_d (sint (version s1 + of_nat i))) [0..<n]"
    by blast
  from Writer_allocates [OF w] show ?case
  proof
    assume "s1 = s \<and> allocated (calls st1) = allocated (calls st)"
    with n show ?thesis by (intro exI [of _ n]) simp
  next
    assume a: "s1 = s\<lparr>version := version s + 1\<rparr>
        \<and> allocated (calls st1) = allocated (calls st) @ [Sprintf_d (sint (version s))]"
    with n show ?thesis
      by (intro exI [of _ "Suc n"]) (simp add: upt_0_Suc_map add.assoc del: upt_Suc)
  qed
qed

lemma sint_of_nat_small: "i < 2 ^ 63 \<Longrightarrow> sint (of_nat i :: 64 word) = int i"
proof -
  assume "i < 2 ^ 63"
  then have "int i < int (2 ^ 63)" by (simp only: of_nat_less_iff)
  then have "int i < 2 ^ 63" by simp
  then have "signed_take_bit 63 (int i) = int i"
    by (intro signed_take_bit_int_eq_self) simp_all
  moreover have "sint (of_nat i :: 64 word) = signed_take_bit 63 (int i)"
    by (simp add: signed_of_nat)
  ultimately show ?thesis by simp
qed

text \<open>
  The counter is a 64-bit number: at the greatest one the next name is still its decimal
  form, and the increment wraps to the least one.
\<close>

lemma counter_wraps:
  "nextVersionFilename \<lparr>dir = d, version = 9223372036854775807\<rparr>
     = (''9223372036854775807'', \<lparr>dir = d, version = - 9223372036854775808\<rparr>)
   \<and> fst (nextVersionFilename \<lparr>dir = d, version = - 9223372036854775808\<rparr>)
     = ''-9223372036854775808''"
  by (simp add: nextVersionFilename_def Sprintf_d_def decimal.simps digit_char_def)

lemma Open_version:
  "Open fs dir_arg [] st = (Inr s, st') \<Longrightarrow> version s = 0"
  by (auto simp: Open_def split: option.splits prod.splits sum.splits if_splits)

text \<open>
  Claim C5.  Take a handle whose counter is 0, as \<^verbatim>\<open>Open\<close> leaves it, and any
  sequence of at most \<open>2 ^ 63\<close> calls of \<^verbatim>\<open>Writer\<close> on it, for any keys and
  over any implementation of the directory.  The names the handle passes to
  \<^verbatim>\<open>FileWriter\<close> in these calls are, in order, the decimal forms of
  \<open>0, 1, \<dots>, n - 1\<close>, where \<open>n\<close> is the number of calls that reached the
  allocation, and the counter ends at \<open>n\<close>.  Whether \<^verbatim>\<open>FileWriter\<close> succeeded
  plays no part, so the number of a failed creation is not allocated again; a call
  that fails before the allocation (invalid key, \<^verbatim>\<open>Exists\<close> or \<^verbatim>\<open>Mkdir\<close>
  error) takes no number.  The bound on the length is the range of Go's 64-bit
  \<^verbatim>\<open>int\<close>.
\<close>

theorem versions_consecutive:
  assumes "version s = 0"
    and "length keys \<le> 2 ^ 63"
    and "Writers fs s keys st = (s', st')"
  shows "\<exists>n. n \<le> length keys \<and> s' = s\<lparr>version := of_nat n\<rparr>
     \<and> allocated (calls st') = allocated (calls st) @ map (\<lambda>i. Sprintf_d (int i)) [0..<n]"
proof -
  from Writers_allocates [OF assms(3)] assms(1) obtain n where n: "n \<le> length keys"
    "s' = s\<lparr>version := of_nat n\<rparr>"
    "allocated (calls st')
       = allocated (calls st) @ map (\<lambda>i. Sprintf_d (sint (of_nat i :: 64 word))) [0..<n]"
    by auto
  have "sint (of_nat i :: 64 word) = int i" if "i < n" for i
  proof -
    from that n(1) assms(2) have "i < 2 ^ 63" by linarith
    then show ?thesis by (rule sint_of_nat_small)
  qed
  then have "map (\<lambda>i. Sprintf_d (sint (of_nat i :: 64 word))) [0..<n]
      = map (\<lambda>i. Sprintf_d (int i)) [0..<n]"
    by simp
  with n show ?thesis by auto
qed

theorem versions_consecutive_witness:
  "version fresh_db = 0
   \<and> length [''a'', ''a'', ''/'', ''b''] \<le> 2 ^ 63
   \<and> Writers fake fresh_db [''a'', ''a'', ''/'', ''b''] taken_1
       = (fresh_db\<lparr>version := 3\<rparr>, taken_1_after)
   \<and> (\<exists>n. n \<le> length [''a'', ''a'', ''/'', ''b'']
        \<and> fresh_db\<lparr>version := 3\<rparr> = fresh_db\<lparr>version := of_nat n\<rparr>
        \<and> allocated (calls taken_1_after)
            = allocated (calls taken_1) @ map (\<lambda>i. Sprintf_d (int i)) [0..<n])"
proof -
  have v: "version fresh_db = 0"
    by (simp add: fresh_db_def)
  have len: "length [''a'', ''a'', ''/'', ''b''] \<le> 2 ^ 63"
    by simp
  have run: "Writers fake fresh_db [''a'', ''a'', ''/'', ''b''] taken_1
       = (fresh_db\<lparr>version := 3\<rparr>, taken_1_after)"
    by (simp add: Writer_def Let_def validateKey_def isSpace_def nextVersionFilename_def
        Sprintf_d_def decimal.simps digit_char_def dir_Exists_def dir_Mkdir_def
        dir_FileWriter_def call_def fake_def fake_Exists_def fake_Mkdir_def
        fake_FileWriter_def fake_root_def Dir_def fresh_db_def taken_1_def
        taken_1_after_def)
  from versions_consecutive [OF v len run] v len run
  show ?thesis by (intro conjI) assumption+
qed

text \<open>The decimal forms of different numbers are different names.\<close>

lemma decimal_names_distinct: "distinct (map (\<lambda>i. Sprintf_d (int i)) [0..<n])"
proof -
  have "inj_on (\<lambda>i. Sprintf_d (int i)) (set [0..<n])"
  proof (rule inj_onI)
    fix i j :: nat
    assume "Sprintf_d (int i) = Sprintf_d (int j)"
    then have "parseVersion (Sprintf_d (int i)) = parseVersion (Sprintf_d (int j))" by simp
    then show "i = j" by (simp add: parseVersion_Sprintf_d)
  qed
  then show ?thesis by (simp add: distinct_map)
qed

text \<open>In this example the names are \<^verbatim>\<open>0\<close>, \<^verbatim>\<open>1\<close> and \<^verbatim>\<open>2\<close>.\<close>

lemma allocated_example: "allocated (calls taken_1_after) = [''0'', ''1'', ''2'']"
  by (simp add: taken_1_after_def)

end
